theory Spec2Isabelle
  imports Complex_Main "HOL-Library.Word"
begin

section \<open>Values of the host language\<close>

text \<open>
  A JavaScript string is a sequence of UTF-16 code units; \<open>str.length\<close> counts code
  units, \<open>str.charCodeAt(0)\<close> reads the first one, and \<open>for (const char of str)\<close>
  iterates code points: a high surrogate followed by a low surrogate is one \<open>char\<close>
  (a string of two code units), every other code unit is a \<open>char\<close> of its own.

  Numbers are modelled as exact rationals: every quantity of the layout is a sum or
  product of the caller's numbers and of the factors 0.5 and 1. NaN appears only where
  the source parses a size string, and is \<open>None\<close> there.
\<close>

type_synonym code_unit = "16 word"
type_synonym js_string = "code_unit list"
type_synonym num = rat

definition ascii :: "string \<Rightarrow> js_string" where
  "ascii s = map of_char s"

definition is_high_surrogate :: "code_unit \<Rightarrow> bool" where
  "is_high_surrogate c \<longleftrightarrow> 0xD800 \<le> c \<and> c \<le> 0xDBFF"

definition is_low_surrogate :: "code_unit \<Rightarrow> bool" where
  "is_low_surrogate c \<longleftrightarrow> 0xDC00 \<le> c \<and> c \<le> 0xDFFF"

text \<open>The string iterator behind \<open>for (const char of str)\<close>.\<close>

fun chars_of :: "js_string \<Rightarrow> js_string list" where
  "chars_of [] = []"
| "chars_of [c] = [[c]]"
| "chars_of (c # d # cs) =
     (if is_high_surrogate c \<and> is_low_surrogate d then [c, d] # chars_of cs
      else [c] # chars_of (d # cs))"

text \<open>Whether the iterator joins two code units of the string into one character.\<close>

definition has_surrogate_pair :: "js_string \<Rightarrow> bool" where
  "has_surrogate_pair s \<longleftrightarrow> (\<exists>ch \<in> set (chars_of s). length ch = 2)"

text \<open>\<open>char.charCodeAt(0)\<close>: NaN (here \<open>None\<close>) on the empty string.\<close>

definition charCodeAt0 :: "js_string \<Rightarrow> code_unit option" where
  "charCodeAt0 s = (case s of [] \<Rightarrow> None | c # _ \<Rightarrow> Some c)"

text \<open>Truthiness of a string (\<open>Boolean(s)\<close>, \<open>!s\<close>) and of a number.\<close>

definition truthy_str :: "js_string \<Rightarrow> bool" where
  "truthy_str s \<longleftrightarrow> s \<noteq> []"

definition truthy_num :: "num \<Rightarrow> bool" where
  "truthy_num n \<longleftrightarrow> n \<noteq> 0"

section \<open>Character-width model (TextGraphics)\<close>

text \<open>
  \<open>char.charCodeAt(0) < 128 && char.charCodeAt(0) >= 0 ? 0.5 : 1\<close>; a comparison with
  NaN is false.
\<close>

definition get_char_width :: "js_string \<Rightarrow> num" where
  "get_char_width char =
     (case charCodeAt0 char of
        None \<Rightarrow> 1
      | Some c \<Rightarrow> if c < 128 \<and> c \<ge> 0 then 1 / 2 else 1)"

text \<open>\<open>let width = 0; for (const char of str) width += ...; return width\<close>\<close>

definition get_string_width :: "js_string \<Rightarrow> num" where
  "get_string_width str = foldl (\<lambda>width char. width + get_char_width char) 0 (chars_of str)"

section \<open>Character-width model (rectangle)\<close>

text \<open>The minimal preset counts \<open>1\<close> on both branches of the same test.\<close>

definition rect_get_string_width :: "js_string \<Rightarrow> num" where
  "rect_get_string_width str =
     foldl (\<lambda>width char. width +
        (case charCodeAt0 char of
           None \<Rightarrow> 1
         | Some c \<Rightarrow> if c < 128 \<and> c \<ge> 0 then 1 else 1)) 0 (chars_of str)"


section \<open>Style and option types\<close>

text \<open>
  An optional property (\<open>size?: number\<close>) is an \<open>option\<close>; the defaults of the
  destructuring patterns are applied where the source applies them. Padding and radius
  are the union types of the source, with the array lengths the types allow.
\<close>

datatype TextAlign = AlignLeft | AlignCenter | AlignRight

datatype Padding = Pad1 num | Pad2 num num | Pad4 num num num num

datatype Radius = Rad1 num | Rad4 num num num num

record FontStyle =
  fs_style :: "js_string option"
  fs_variant :: "js_string option"
  fs_weight :: "js_string option"
  fs_size :: "num option"
  fs_lineHeight :: "num option"
  fs_family :: "js_string option"
  fs_color :: "js_string option"
  fs_padding :: "Padding option"
  fs_rowGap :: "num option"
  fs_textAlign :: "TextAlign option"
  fs_letterSpacing :: "num option"
  fs_borderColor :: "js_string option"
  fs_borderWidth :: "num option"

record BorderStyle =
  bs_color :: "js_string option"
  bs_width :: "num option"
  bs_radius :: "Radius option"

text \<open>
  A \<open>LinearGradient\<close> object is given by its properties in creation order, each a
  numeric key with its colour.
\<close>

datatype BackgroundColor = SolidColor js_string | LinearGradient "(num \<times> js_string) list"

datatype BackgroundSize = Size1 js_string | Size2 js_string js_string

datatype BackgroundPosition = Pos1 num | Pos2 num num

record BackgroundStyle =
  bg_color :: "BackgroundColor option"
  bg_image :: "js_string option"
  bg_size :: "BackgroundSize option"
  bg_position :: "BackgroundPosition option"

datatype Content = Text js_string | Lines "js_string list"

datatype Dim = Px num | Auto

record TextGraphicsOptions =
  tg_content :: "Content option"
  tg_borderStyle :: "BorderStyle option"
  tg_backgroundStyle :: "BackgroundStyle option"
  tg_fontStyle :: "FontStyle option"
  tg_width :: "Dim option"
  tg_height :: "Dim option"

definition no_FontStyle :: FontStyle where
  "no_FontStyle = \<lparr>fs_style = None, fs_variant = None, fs_weight = None, fs_size = None,
     fs_lineHeight = None, fs_family = None, fs_color = None, fs_padding = None,
     fs_rowGap = None, fs_textAlign = None, fs_letterSpacing = None,
     fs_borderColor = None, fs_borderWidth = None\<rparr>"

definition no_BorderStyle :: BorderStyle where
  "no_BorderStyle = \<lparr>bs_color = None, bs_width = None, bs_radius = None\<rparr>"

definition no_BackgroundStyle :: BackgroundStyle where
  "no_BackgroundStyle = \<lparr>bg_color = None, bg_image = None, bg_size = None, bg_position = None\<rparr>"

definition no_options :: TextGraphicsOptions where
  "no_options = \<lparr>tg_content = None, tg_borderStyle = None, tg_backgroundStyle = None,
     tg_fontStyle = None, tg_width = None, tg_height = None\<rparr>"

text \<open>\<open>const { x = d } = obj\<close>: the default stands in for \<open>undefined\<close> only.\<close>

definition dflt :: "'a \<Rightarrow> 'a option \<Rightarrow> 'a" where
  "dflt d v = (case v of None \<Rightarrow> d | Some x \<Rightarrow> x)"

definition truthy_ostr :: "js_string option \<Rightarrow> bool" where
  "truthy_ostr v = (case v of None \<Rightarrow> False | Some s \<Rightarrow> truthy_str s)"

section \<open>The drawing surface\<close>

text \<open>
  The 2D context is an external collaborator. A surface is its size and the calls made
  on its context, in call order. The source passes four angles to \<open>arc\<close>: \<open>0\<close>,
  \<open>PI * 0.5\<close>, \<open>PI\<close> and \<open>PI * 1.5\<close>; they are the four values of the type
  \<open>angle\<close>. What the context itself does with an argument (an
  exception on a negative radius, rounding of the size) is outside the model.
\<close>

datatype angle = PI_0 | PI_05 | PI_1 | PI_15

datatype path_cmd =
    MoveTo num num
  | LineTo num num
  | Arc num num num angle angle
  | ClosePath

record image =
  img_width :: num
  img_height :: num

datatype canvas_op =
    BeginPath
  | PathCmd path_cmd
  | Clip
  | CreateLinearGradient num num num num
  | AddColorStop num "js_string option"
  | SetFillStyle js_string
  | SetFillStyleGradient
  | FillRect num num num num
  | DrawImage image num num "num option" "num option"
  | SetLineWidth num
  | SetStrokeStyle js_string
  | Stroke "path_cmd list"
  | SetFont js_string
  | SetFontParts js_string js_string js_string num num js_string
  | SetTextAlign js_string
  | SetTextBaseline js_string
  | FillText js_string num num
  | StrokeText js_string num num

record canvas =
  cv_width :: num
  cv_height :: num
  cv_ops :: "canvas_op list"

text \<open>
  The runtime around the engine: \<open>loadImage\<close> (imported from \<open>../_utils/loadImage\<close>,
  a promise that resolves to an image or rejects with a reason of type \<open>'e\<close>) and the
  conversion of a string to a number by unary plus, \<open>None\<close> being NaN.
\<close>

record 'e host =
  loadImage :: "js_string \<Rightarrow> 'e + image"
  to_number :: "js_string \<Rightarrow> num option"

section \<open>Box geometry\<close>

text \<open>\<open>[lt, rt, rb, lb] = radius\<close>, or the scalar four times.\<close>

definition radii :: "Radius \<Rightarrow> num \<times> num \<times> num \<times> num" where
  "radii radius =
     (case radius of
        Rad4 lt rt rb lb \<Rightarrow> (lt, rt, rb, lb)
      | Rad1 r \<Rightarrow> (r, r, r, r))"

text \<open>The path that \<open>drawCtx\<close> of TextGraphics traces on the context before \<open>clip()\<close>.\<close>

definition drawCtx_path :: "num \<Rightarrow> num \<Rightarrow> Radius \<Rightarrow> path_cmd list" where
  "drawCtx_path width height radius =
     (let x = 0; y = 0 in
      case radii radius of (lt, rt, rb, lb) \<Rightarrow>
        (if truthy_num lt then [Arc (x + lt) (y + lt) lt PI_1 PI_15]
         else [MoveTo x y])
      @ (if truthy_num rt
         then [LineTo (x + width - rt) y, Arc (x + width - rt) (y + rt) rt PI_15 PI_0]
         else [LineTo (x + width) y])
      @ (if truthy_num rb
         then [LineTo (x + width) (y + height - rb),
               Arc (x + width - rb) (y + height - rb) rb PI_0 PI_05]
         else [LineTo (x + width) (y + height)])
      @ (if truthy_num lb
         then [LineTo (x + lb) (y + height), Arc (x + lb) (y + height - lb) lb PI_05 PI_1]
         else [LineTo x (y + height)]))"

text \<open>The path of \<open>drawCtx\<close> of rectangle, between \<open>beginPath()\<close> and \<open>closePath()\<close>.\<close>

definition rect_drawCtx_path :: "num \<Rightarrow> num \<Rightarrow> Radius \<Rightarrow> path_cmd list" where
  "rect_drawCtx_path width height radius =
     (let x = 0; y = 0 in
      case radii radius of (lt, rt, rb, lb) \<Rightarrow>
        [Arc (x + lt) (y + lt) lt PI_1 PI_15,
         LineTo (x + width - rt) y,
         Arc (x + width - rt) (y + rt) rt PI_15 PI_0,
         LineTo (x + width) (y + height - rb),
         Arc (x + width - rb) (y + height - rb) rb PI_0 PI_05,
         LineTo (x + lb) (y + height),
         Arc (x + lb) (y + height - lb) lb PI_05 PI_1,
         ClosePath])"

text \<open>
  The \<open>Path2D\<close> that \<open>drawBorder\<close> builds; the statements are the same in both
  files.
\<close>

definition drawBorder_path :: "num \<Rightarrow> num \<Rightarrow> Radius \<Rightarrow> path_cmd list" where
  "drawBorder_path width height borderRadius =
     (let x = 0; y = 0 in
      case radii borderRadius of (lt, rt, rb, lb) \<Rightarrow>
        [MoveTo (x + lt) y,
         LineTo (x + width - lt) y,
         Arc (x + width - lt) (y + lt) lt PI_15 PI_0,
         LineTo (x + width) (y + height - lb),
         Arc (x + width - lb) (y + height - lb) lb PI_0 PI_05,
         LineTo (x + rt) (y + height),
         Arc (x + rt) (y + height - rt) rt PI_05 PI_1,
         LineTo x (y + rb),
         Arc (x + rb) (y + rb) rb PI_1 PI_15])"

section \<open>Background painter (TextGraphics)\<close>

text \<open>
  \<open>Object.keys\<close> of an ordinary object lists the keys that are array indices (the
  integers from 0 to 2^32 - 2) in ascending numeric order, then the other keys in the
  order of their creation. A number used as a key is the key of its string form, and
  \<open>+key\<close> reads the number back.
\<close>

definition is_array_index :: "num \<Rightarrow> bool" where
  "is_array_index k \<longleftrightarrow> k = of_int \<lfloor>k\<rfloor> \<and> 0 \<le> k \<and> k < 2 ^ 32 - 1"

definition first_occurrences :: "'a list \<Rightarrow> 'a list" where
  "first_occurrences xs = rev (remdups (rev xs))"

definition Object_keys :: "(num \<times> js_string) list \<Rightarrow> num list" where
  "Object_keys obj =
     sort (remdups (filter is_array_index (map fst obj)))
     @ first_occurrences (filter (\<lambda>k. \<not> is_array_index k) (map fst obj))"

text \<open>\<open>obj[+key]\<close>: the value last stored under the key, \<open>undefined\<close> without one.\<close>

definition obj_get :: "(num \<times> js_string) list \<Rightarrow> num \<Rightarrow> js_string option" where
  "obj_get obj k = map_of (rev obj) k"

text \<open>
  \<open>Object.keys(backgroundColor).forEach((key) => gradient.addColorStop(+key,
  backgroundColor[+key]))\<close>
\<close>

definition gradient_stops :: "(num \<times> js_string) list \<Rightarrow> canvas_op list" where
  "gradient_stops backgroundColor =
     map (\<lambda>key. AddColorStop key (obj_get backgroundColor key)) (Object_keys backgroundColor)"

text \<open>\<open>str.replace('%', '')\<close> removes the first percent sign.\<close>

fun replace_percent :: "js_string \<Rightarrow> js_string" where
  "replace_percent [] = []"
| "replace_percent (c # cs) = (if c = 0x25 then cs else c # replace_percent cs)"

text \<open>
  One axis of the image size: the number the string denotes, or, when it denotes none,
  the percentage left after removing \<open>%\<close> applied to the natural size.
\<close>

definition resolve_size :: "'e host \<Rightarrow> js_string \<Rightarrow> num \<Rightarrow> num option" where
  "resolve_size h sz natural =
     (case to_number h sz of
        Some n \<Rightarrow> Some n
      | None \<Rightarrow>
          (case to_number h (replace_percent sz) of
             Some percent \<Rightarrow> Some ((percent * natural) / 100)
           | None \<Rightarrow> None))"

definition truthy_color :: "BackgroundColor option \<Rightarrow> bool" where
  "truthy_color c =
     (case c of None \<Rightarrow> False | Some (SolidColor s) \<Rightarrow> truthy_str s | Some (LinearGradient g) \<Rightarrow> True)"

definition fill_background :: "BackgroundColor option \<Rightarrow> num \<Rightarrow> num \<Rightarrow> canvas_op list" where
  "fill_background backgroundColor width height =
     (case backgroundColor of
        None \<Rightarrow> []
      | Some (SolidColor s) \<Rightarrow>
          (if truthy_str s then [SetFillStyle s, FillRect 0 0 width height] else [])
      | Some (LinearGradient g) \<Rightarrow>
          [CreateLinearGradient 0 0 width height] @ gradient_stops g
          @ [SetFillStyleGradient, FillRect 0 0 width height])"

definition draw_image :: "'e host \<Rightarrow> BackgroundStyle \<Rightarrow> image \<Rightarrow> canvas_op list" where
  "draw_image h backgroundStyle img =
     (let (px, py) =
            (case bg_position backgroundStyle of
               None \<Rightarrow> (0, 0)
             | Some (Pos2 a b) \<Rightarrow> (a, b)
             | Some (Pos1 a) \<Rightarrow> (if truthy_num a then (a, a) else (0, 0)));
          sizes =
            (case bg_size backgroundStyle of
               None \<Rightarrow> None
             | Some (Size2 a b) \<Rightarrow> Some (a, b)
             | Some (Size1 a) \<Rightarrow> (if truthy_str a then Some (a, a) else None));
          (w, h') =
            (case sizes of
               None \<Rightarrow> (Some (img_width img), Some (img_height img))
             | Some (w_size, h_size) \<Rightarrow>
                 (resolve_size h w_size (img_width img), resolve_size h h_size (img_height img)))
      in [DrawImage img px py w h'])"

text \<open>
  \<open>drawCtx\<close>: the calls made on the context, or the rejection of \<open>loadImage\<close>. The
  await of \<open>loadImage\<close> is the only point where the function can fail.
\<close>

definition drawCtx :: "'e host \<Rightarrow> num \<Rightarrow> num \<Rightarrow> Radius \<Rightarrow> BackgroundStyle option
    \<Rightarrow> 'e + canvas_op list" where
  "drawCtx h width height radius backgroundStyle' =
     (let backgroundStyle = dflt no_BackgroundStyle backgroundStyle';
          backgroundColor = bg_color backgroundStyle;
          backgroundImage = bg_image backgroundStyle
      in if \<not> truthy_color backgroundColor \<and> \<not> truthy_ostr backgroundImage then Inr []
         else
           let drawn = map PathCmd (drawCtx_path width height radius) @ [Clip]
                        @ fill_background backgroundColor width height
           in case backgroundImage of
                None \<Rightarrow> Inr drawn
              | Some src \<Rightarrow>
                  if truthy_str src
                  then (case loadImage h src of
                          Inl e \<Rightarrow> Inl e
                        | Inr img \<Rightarrow> Inr (drawn @ draw_image h backgroundStyle img))
                  else Inr drawn)"

section \<open>Border painter (TextGraphics)\<close>

definition drawBorder :: "num \<Rightarrow> num \<Rightarrow> BorderStyle option \<Rightarrow> canvas_op list" where
  "drawBorder width height borderStyle' =
     (let borderStyle = dflt no_BorderStyle borderStyle';
          borderColor = bs_color borderStyle;
          borderWidth = dflt 0 (bs_width borderStyle);
          borderRadius = dflt (Rad1 0) (bs_radius borderStyle)
      in if \<not> truthy_num borderWidth \<or> \<not> truthy_ostr borderColor then []
         else [SetLineWidth borderWidth,
               SetStrokeStyle (dflt [] borderColor),
               Stroke (drawBorder_path width height borderRadius)])"

section \<open>Text layout and painter (TextGraphics)\<close>

definition calculateLeft :: "num \<Rightarrow> num \<Rightarrow> TextAlign \<Rightarrow> num" where
  "calculateLeft maxTextLength textLenth textAlign =
     (let left0 = 0;
          left1 = (if textAlign = AlignCenter then left0 + (maxTextLength - textLenth) / 2 else left0);
          left2 = (if textAlign = AlignRight then left1 + (maxTextLength - textLenth) else left1)
      in left2)"

text \<open>The loop of \<open>drawRowText\<close> over the characters of the row, with its pen position.\<close>

fun drawRowText_loop :: "js_string list \<Rightarrow> num \<Rightarrow> num \<Rightarrow> num \<Rightarrow> num \<Rightarrow> num \<Rightarrow> canvas_op list" where
  "drawRowText_loop [] left' top' fontSize borderWidth letterSpacing = []"
| "drawRowText_loop (char # rest) left' top' fontSize borderWidth letterSpacing =
     FillText char left' top'
     # (if truthy_num borderWidth then [StrokeText char left' top'] else [])
     @ drawRowText_loop rest (left' + (fontSize * get_char_width char + letterSpacing)) top'
         fontSize borderWidth letterSpacing"

definition drawRowText :: "js_string \<Rightarrow> num \<Rightarrow> num \<Rightarrow> num \<Rightarrow> num \<Rightarrow> num \<Rightarrow> canvas_op list" where
  "drawRowText text left' top' fontSize borderWidth letterSpacing =
     drawRowText_loop (chars_of text) left' top' fontSize borderWidth letterSpacing"

text \<open>
  \<open>text.reduce((prev, curr) => get_string_width(prev) > get_string_width(curr) ? prev
  : curr)\<close> on an array with first element \<open>t\<close> and rest \<open>ts\<close>. \<open>deepCopy\<close> (of
  hsu-utils) yields an equal array of strings, here the list itself.
\<close>

definition max_text :: "js_string \<Rightarrow> js_string list \<Rightarrow> js_string" where
  "max_text t ts =
     foldl (\<lambda>prev curr. if get_string_width prev > get_string_width curr then prev else curr) t ts"

text \<open>Pixel width of one line, as \<open>drawText\<close> and \<open>TextGraphics\<close> measure it.\<close>

definition line_width :: "js_string \<Rightarrow> num \<Rightarrow> num \<Rightarrow> num" where
  "line_width text fontSize letterSpacing =
     get_string_width text * fontSize + (of_nat (length text) - 1) * letterSpacing"

text \<open>The width within which \<open>drawText\<close> aligns the lines.\<close>

definition available_width :: "js_string list \<Rightarrow> num option \<Rightarrow> num \<Rightarrow> num \<Rightarrow> num" where
  "available_width text maxTextLength fontSize letterSpacing =
     (let computed =
            (case text of
               [] \<Rightarrow> 0
             | t # ts \<Rightarrow> line_width (max_text t ts) fontSize letterSpacing)
      in case maxTextLength of
           None \<Rightarrow> computed
         | Some m \<Rightarrow> if truthy_num m then m else computed)"

text \<open>The x coordinate at which a line starts (\<open>_textLeft\<close>) and its baseline.\<close>

definition text_left :: "num \<Rightarrow> num \<Rightarrow> TextAlign \<Rightarrow> num \<Rightarrow> num \<Rightarrow> js_string \<Rightarrow> num" where
  "text_left left' available textAlign fontSize letterSpacing text =
     left' + calculateLeft available (line_width text fontSize letterSpacing) textAlign"

definition text_top :: "num \<Rightarrow> num \<Rightarrow> num \<Rightarrow> nat \<Rightarrow> num" where
  "text_top top' fontSize rowGap idx =
     (top' + fontSize / 2) + fontSize * of_nat idx + rowGap * of_nat idx"

definition default_family :: js_string where
  "default_family = [0x5FAE, 0x8F6F, 0x96C5, 0x9ED1]"

definition drawText :: "js_string list \<Rightarrow> num option \<Rightarrow> FontStyle option \<Rightarrow> num \<Rightarrow> num \<Rightarrow> num
    \<Rightarrow> canvas_op list" where
  "drawText text maxTextLength fontStyle' top' left' rowGap =
     (let fontStyle = dflt no_FontStyle fontStyle';
          color = dflt (ascii ''#000'') (fs_color fontStyle);
          textAlign = dflt AlignLeft (fs_textAlign fontStyle);
          fontSize = dflt 12 (fs_size fontStyle);
          borderColor = dflt (ascii ''#000'') (fs_borderColor fontStyle);
          borderWidth = dflt 0 (fs_borderWidth fontStyle);
          letterSpacing = dflt 0 (fs_letterSpacing fontStyle);
          available = available_width text maxTextLength fontSize letterSpacing
      in [SetFontParts (dflt (ascii ''normal'') (fs_style fontStyle))
            (dflt (ascii ''normal'') (fs_variant fontStyle))
            (dflt (ascii ''normal'') (fs_weight fontStyle))
            fontSize (dflt 1 (fs_lineHeight fontStyle))
            (dflt default_family (fs_family fontStyle)),
          SetFillStyle color,
          SetTextAlign (ascii ''left''),
          SetTextBaseline (ascii ''middle''),
          SetStrokeStyle borderColor,
          SetLineWidth borderWidth]
         @ concat (map (\<lambda>(idx, t).
             drawRowText t (text_left left' available textAlign fontSize letterSpacing t)
               (text_top top' fontSize rowGap idx) fontSize borderWidth letterSpacing)
             (enumerate 0 text)))"

section \<open>Orchestrator (TextGraphics)\<close>

text \<open>The four padding sides \<open>(top, right, bottom, left)\<close> of the padding value.\<close>

definition padding_sides :: "Padding \<Rightarrow> num \<times> num \<times> num \<times> num" where
  "padding_sides padding =
     (case padding of
        Pad2 a b \<Rightarrow> (a, b, a, b)
      | Pad4 t r b l \<Rightarrow> (t, r, b, l)
      | Pad1 p \<Rightarrow> (p, p, p, p))"

definition add_border :: "num \<Rightarrow> num \<times> num \<times> num \<times> num \<Rightarrow> num \<times> num \<times> num \<times> num" where
  "add_border borderWidth sides =
     (case sides of (t, r, b, l) \<Rightarrow>
        if truthy_num borderWidth
        then (t + borderWidth, r + borderWidth, b + borderWidth, l + borderWidth)
        else (t, r, b, l))"

text \<open>
  \<open>content ? (Array.isArray(content) ? deepCopy(content) : [content]) : []\<close>, then
  \<open>filter(Boolean)\<close>.
\<close>

definition text_lines :: "Content option \<Rightarrow> js_string list" where
  "text_lines content =
     filter truthy_str
       (case content of
          None \<Rightarrow> []
        | Some (Text s) \<Rightarrow> if truthy_str s then [s] else []
        | Some (Lines ls) \<Rightarrow> ls)"

text \<open>
  The destructuring at the head of \<open>TextGraphics\<close>, with its defaults:
  \<open>const { radius: borderRadius = 0, width: borderWidth = 0 } = borderStyle\<close> and
  \<open>const { size: fontSize = 12, padding = 0, rowGap = 0, letterSpacing = 0 } = fontStyle\<close>.
\<close>

definition tg_borderRadius :: "TextGraphicsOptions \<Rightarrow> Radius" where
  "tg_borderRadius options = dflt (Rad1 0) (bs_radius (dflt no_BorderStyle (tg_borderStyle options)))"

definition tg_borderWidth :: "TextGraphicsOptions \<Rightarrow> num" where
  "tg_borderWidth options = dflt 0 (bs_width (dflt no_BorderStyle (tg_borderStyle options)))"

definition tg_fontSize :: "TextGraphicsOptions \<Rightarrow> num" where
  "tg_fontSize options = dflt 12 (fs_size (dflt no_FontStyle (tg_fontStyle options)))"

definition tg_padding :: "TextGraphicsOptions \<Rightarrow> Padding" where
  "tg_padding options = dflt (Pad1 0) (fs_padding (dflt no_FontStyle (tg_fontStyle options)))"

definition tg_rowGap :: "TextGraphicsOptions \<Rightarrow> num" where
  "tg_rowGap options = dflt 0 (fs_rowGap (dflt no_FontStyle (tg_fontStyle options)))"

definition tg_letterSpacing :: "TextGraphicsOptions \<Rightarrow> num" where
  "tg_letterSpacing options = dflt 0 (fs_letterSpacing (dflt no_FontStyle (tg_fontStyle options)))"

text \<open>\<open>[_top, _right, _bottom, _left]\<close> once the border width has been added.\<close>

definition tg_sides :: "TextGraphicsOptions \<Rightarrow> num \<times> num \<times> num \<times> num" where
  "tg_sides options = add_border (tg_borderWidth options) (padding_sides (tg_padding options))"

text \<open>The resolved \<open>(width, height)\<close> of the surface.\<close>

definition resolve_size_tg :: "TextGraphicsOptions \<Rightarrow> num \<times> num" where
  "resolve_size_tg options =
     (let fontSize = tg_fontSize options;
          rowGap = tg_rowGap options;
          letterSpacing = tg_letterSpacing options;
          canvasWidth = dflt Auto (tg_width options);
          canvasHeight = dflt Auto (tg_height options);
          text = text_lines (tg_content options)
      in case tg_sides options of
           (top', right', bottom', left') \<Rightarrow>
             let width0 = (case canvasWidth of Px w \<Rightarrow> w | Auto \<Rightarrow> 0);
                 height0 = (case canvasHeight of Px h \<Rightarrow> h | Auto \<Rightarrow> 0)
             in (case text of
                   [] \<Rightarrow> (width0, height0)
                 | t # ts \<Rightarrow>
                     (if canvasWidth = Auto
                      then get_string_width (max_text t ts) * fontSize + (left' + right')
                           + (of_nat (length (max_text t ts)) - 1) * letterSpacing
                      else width0,
                      if canvasHeight = Auto
                      then of_nat (length text) * fontSize + (top' + bottom')
                           + (of_nat (length text) - 1) * rowGap
                           - (if length text mod 2 = 0 then 2 else 4)
                      else height0)))"

text \<open>
  \<open>TextGraphics\<close>: the surface with the calls painted on it, or the rejection that
  \<open>await drawCtx(...)\<close> passes on.
\<close>

definition TextGraphics :: "'e host \<Rightarrow> TextGraphicsOptions \<Rightarrow> 'e + canvas" where
  "TextGraphics h options =
     (case tg_sides options of
        (top', right', bottom', left') \<Rightarrow>
          (case resolve_size_tg options of
             (width, height) \<Rightarrow>
               if truthy_num width \<and> truthy_num height
               then (case drawCtx h width height (tg_borderRadius options)
                            (tg_backgroundStyle options) of
                       Inl e \<Rightarrow> Inl e
                     | Inr background \<Rightarrow>
                         Inr \<lparr>cv_width = width, cv_height = height,
                              cv_ops = background
                                @ drawBorder width height (tg_borderStyle options)
                                @ drawText (text_lines (tg_content options))
                                    (Some (width - (left' + right')))
                                    (tg_fontStyle options) top' left' (tg_rowGap options)\<rparr>)
               else Inr \<lparr>cv_width = width, cv_height = height, cv_ops = []\<rparr>))"

section \<open>The minimal preset (rectangle)\<close>

record RectFontStyle =
  rfs_size :: "js_string option"
  rfs_family :: "js_string option"
  rfs_color :: "js_string option"
  rfs_textAlign :: "js_string option"
  rfs_textBaseline :: "js_string option"
  rfs_padding :: "Padding option"
  rfs_rowGap :: "num option"

record RectangleOptions =
  rc_content :: "Content option"
  rc_borderStyle :: "BorderStyle option"
  rc_backgroundColor :: "js_string option"
  rc_fontStyle :: "RectFontStyle option"
  rc_width :: "Dim option"
  rc_height :: "Dim option"

definition no_RectFontStyle :: RectFontStyle where
  "no_RectFontStyle = \<lparr>rfs_size = None, rfs_family = None, rfs_color = None,
     rfs_textAlign = None, rfs_textBaseline = None, rfs_padding = None, rfs_rowGap = None\<rparr>"

definition no_rect_options :: RectangleOptions where
  "no_rect_options = \<lparr>rc_content = None, rc_borderStyle = None, rc_backgroundColor = None,
     rc_fontStyle = None, rc_width = None, rc_height = None\<rparr>"

text \<open>An exception of the language itself (iterating \<open>undefined\<close>).\<close>

datatype js_error = TypeError

text \<open>
  \<open>+(fontSize.match(/(\d+)/)?.[0] ?? '12')\<close>: the number written by the first run of
  decimal digits of the size string, 12 when it has no digit.
\<close>

definition is_digit :: "code_unit \<Rightarrow> bool" where
  "is_digit c \<longleftrightarrow> 0x30 \<le> c \<and> c \<le> 0x39"

definition first_digits :: "js_string \<Rightarrow> js_string" where
  "first_digits s = takeWhile is_digit (dropWhile (\<lambda>c. \<not> is_digit c) s)"

definition digits_value :: "js_string \<Rightarrow> num" where
  "digits_value ds = foldl (\<lambda>n c. 10 * n + of_nat (unat c - 48)) 0 ds"

definition matches :: "js_string \<Rightarrow> num" where
  "matches fontSize =
     (case first_digits fontSize of
        [] \<Rightarrow> digits_value (ascii ''12'')
      | d # ds \<Rightarrow> digits_value (d # ds))"

definition rect_drawCtx :: "num \<Rightarrow> num \<Rightarrow> Radius \<Rightarrow> js_string \<Rightarrow> canvas_op list" where
  "rect_drawCtx width height radius backgroundColor =
     BeginPath # map PathCmd (rect_drawCtx_path width height radius)
     @ [SetFillStyle backgroundColor, FillRect 0 0 width height]"

definition rect_drawBorder :: "num \<Rightarrow> num \<Rightarrow> BorderStyle option \<Rightarrow> canvas_op list" where
  "rect_drawBorder width height borderStyle' =
     (let borderStyle = dflt no_BorderStyle borderStyle';
          borderColor = dflt (ascii ''#fff'') (bs_color borderStyle);
          borderWidth = dflt 0 (bs_width borderStyle);
          borderRadius = dflt (Rad1 0) (bs_radius borderStyle)
      in [SetLineWidth borderWidth,
          SetStrokeStyle borderColor,
          Stroke (drawBorder_path width height borderRadius)])"

definition rect_drawText :: "Content \<Rightarrow> RectFontStyle option \<Rightarrow> num \<Rightarrow> num \<Rightarrow> num
    \<Rightarrow> canvas_op list" where
  "rect_drawText text fontStyle' top' left' rowGap =
     (let fontStyle = dflt no_RectFontStyle fontStyle';
          fontSize = dflt (ascii ''12px'') (rfs_size fontStyle);
          fontFamily = dflt default_family (rfs_family fontStyle)
      in [SetFont (fontSize @ ascii '' '' @ fontFamily @ ascii '' ''),
          SetFillStyle (dflt (ascii ''#000'') (rfs_color fontStyle)),
          SetTextAlign (dflt (ascii ''left'') (rfs_textAlign fontStyle)),
          SetTextBaseline (dflt (ascii ''middle'') (rfs_textBaseline fontStyle))]
         @ (case text of
              Lines items \<Rightarrow>
                map (\<lambda>(idx, item).
                  FillText item left'
                    (matches fontSize * (of_nat idx + 1) + top'
                     + (if idx \<noteq> 0 then rowGap else 0)))
                  (enumerate 0 items)
            | Text t \<Rightarrow> [FillText t left' top']))"

text \<open>
  \<open>content.sort((a, b) => b.length - a.length)\<close> sorts the array in place, longest
  string first, equal lengths keeping their order.
\<close>

definition sort_by_length_desc :: "js_string list \<Rightarrow> js_string list" where
  "sort_by_length_desc ls = sort_key (\<lambda>s. - int (length s)) ls"

text \<open>
  The automatic width: the measured width and the content as the measuring leaves it.
  On an empty array, \<open>content.sort(...)[0]\<close> is \<open>undefined\<close> and iterating it
  throws.
\<close>

definition rect_auto_width :: "Content \<Rightarrow> num \<Rightarrow> num \<Rightarrow> num \<Rightarrow> js_error + num \<times> Content" where
  "rect_auto_width content m left' right' =
     (case content of
        Lines ls \<Rightarrow>
          (case sort_by_length_desc ls of
             [] \<Rightarrow> Inl TypeError
           | longest # rest \<Rightarrow>
               Inr (rect_get_string_width longest * m + (left' + right'), Lines (longest # rest)))
      | Text s \<Rightarrow> Inr (rect_get_string_width s * m + (left' + right'), Text s))"

definition rect_rows :: "Content \<Rightarrow> nat" where
  "rect_rows content = (case content of Lines ls \<Rightarrow> length ls | Text s \<Rightarrow> 1)"

definition truthy_content :: "Content option \<Rightarrow> bool" where
  "truthy_content c =
     (case c of None \<Rightarrow> False | Some (Text s) \<Rightarrow> truthy_str s | Some (Lines ls) \<Rightarrow> True)"

text \<open>
  \<open>rectangle\<close>: the surface it returns together with the caller's content value as the
  call leaves it, or the exception.
\<close>

definition rect_measure :: "RectangleOptions \<Rightarrow> js_error + num \<times> num \<times> Content option" where
  "rect_measure options =
     (let content = rc_content options;
          borderWidth = dflt 0 (bs_width (dflt no_BorderStyle (rc_borderStyle options)));
          fontStyle = dflt no_RectFontStyle (rc_fontStyle options);
          fontSize = dflt (ascii ''12px'') (rfs_size fontStyle);
          rowGap = dflt 0 (rfs_rowGap fontStyle);
          canvasWidth = dflt Auto (rc_width options);
          canvasHeight = dflt Auto (rc_height options)
      in case add_border borderWidth (padding_sides (dflt (Pad1 0) (rfs_padding fontStyle))) of
           (top', right', bottom', left') \<Rightarrow>
             let width0 = (case canvasWidth of Px w \<Rightarrow> w | Auto \<Rightarrow> 0);
                 height0 = (case canvasHeight of Px h \<Rightarrow> h | Auto \<Rightarrow> 0)
             in (case content of
                   None \<Rightarrow> Inr (width0, height0, content)
                 | Some c \<Rightarrow>
                     if truthy_content content \<and> (canvasWidth = Auto \<or> canvasHeight = Auto)
                     then
                       (case (if canvasWidth = Auto
                              then rect_auto_width c (matches fontSize) left' right'
                              else Inr (width0, c)) of
                          Inl e \<Rightarrow> Inl e
                        | Inr (width, c') \<Rightarrow>
                            Inr (width,
                                 if canvasHeight = Auto
                                 then of_nat (rect_rows c') * matches fontSize + (top' + bottom')
                                      + (of_nat (rect_rows c') - 1) * rowGap
                                 else height0,
                                 Some c'))
                     else Inr (width0, height0, content)))"

definition rectangle :: "RectangleOptions \<Rightarrow> js_error + canvas \<times> Content option" where
  "rectangle options =
     (let borderStyle = rc_borderStyle options;
          backgroundColor = dflt (ascii ''#ffffff00'') (rc_backgroundColor options);
          borderRadius = dflt (Rad1 0) (bs_radius (dflt no_BorderStyle borderStyle));
          borderWidth = dflt 0 (bs_width (dflt no_BorderStyle borderStyle));
          fontStyle = dflt no_RectFontStyle (rc_fontStyle options);
          rowGap = dflt 0 (rfs_rowGap fontStyle)
      in case add_border borderWidth (padding_sides (dflt (Pad1 0) (rfs_padding fontStyle))) of
           (top', right', bottom', left') \<Rightarrow>
             (case rect_measure options of
                Inl e \<Rightarrow> Inl e
              | Inr (width, height, content) \<Rightarrow>
                  Inr (\<lparr>cv_width = width, cv_height = height,
                        cv_ops =
                          (if truthy_num width \<and> truthy_num height
                           then rect_drawCtx width height borderRadius backgroundColor
                                @ rect_drawBorder width height borderStyle
                                @ (case content of
                                     None \<Rightarrow> []
                                   | Some c \<Rightarrow>
                                       if truthy_content content
                                       then rect_drawText c (rc_fontStyle options) top' left' rowGap
                                       else [])
                           else [])\<rparr>,
                       content)))"

section \<open>Reading a path and a result\<close>

text \<open>The corner arcs of a path: its \<open>arc\<close> commands of non-zero radius.\<close>

fun corner_arcs :: "path_cmd list \<Rightarrow> (num \<times> num \<times> num \<times> angle \<times> angle) list" where
  "corner_arcs [] = []"
| "corner_arcs (Arc cx cy r a0 a1 # cmds) =
     (if r \<noteq> 0 then (cx, cy, r, a0, a1) # corner_arcs cmds else corner_arcs cmds)"
| "corner_arcs (_ # cmds) = corner_arcs cmds"

text \<open>
  What the context's path commands trace. Angles run clockwise from the positive x axis
  (y grows downwards), so the point of a circle at an angle is the centre plus the
  radius times the unit vector of the angle. \<open>lineTo\<close> draws from the current point;
  \<open>arc\<close> first draws a line from the current point to the start of the arc;
  \<open>closePath\<close> draws back to the start of the subpath. On a path without a current
  point, \<open>lineTo\<close> and \<open>arc\<close> start one.
\<close>

type_synonym point = "num \<times> num"

datatype segment = Line point point | Quarter point num angle angle

fun unit_vector :: "angle \<Rightarrow> point" where
  "unit_vector PI_0 = (1, 0)"
| "unit_vector PI_05 = (0, 1)"
| "unit_vector PI_1 = (- 1, 0)"
| "unit_vector PI_15 = (0, - 1)"

definition arc_point :: "num \<Rightarrow> num \<Rightarrow> num \<Rightarrow> angle \<Rightarrow> point" where
  "arc_point cx cy r a = (cx + r * fst (unit_vector a), cy + r * snd (unit_vector a))"

fun trace :: "path_cmd list \<Rightarrow> (point \<times> point) option \<Rightarrow> segment list" where
  "trace [] st = []"
| "trace (MoveTo x y # cmds) st = trace cmds (Some ((x, y), (x, y)))"
| "trace (LineTo x y # cmds) None = trace cmds (Some ((x, y), (x, y)))"
| "trace (LineTo x y # cmds) (Some (start, cur)) =
     Line cur (x, y) # trace cmds (Some (start, (x, y)))"
| "trace (Arc cx cy r a0 a1 # cmds) None =
     Quarter (cx, cy) r a0 a1
     # trace cmds (Some (arc_point cx cy r a0, arc_point cx cy r a1))"
| "trace (Arc cx cy r a0 a1 # cmds) (Some (start, cur)) =
     Line cur (arc_point cx cy r a0) # Quarter (cx, cy) r a0 a1
     # trace cmds (Some (start, arc_point cx cy r a1))"
| "trace (ClosePath # cmds) None = trace cmds None"
| "trace (ClosePath # cmds) (Some (start, cur)) =
     Line cur start # trace cmds (Some (start, start))"

text \<open>A line between equal points and an arc of radius 0 trace nothing.\<close>

fun degenerate :: "segment \<Rightarrow> bool" where
  "degenerate (Line p q) = (p = q)"
| "degenerate (Quarter c r a0 a1) = (r = 0)"

text \<open>The outline that \<open>stroke(path)\<close> draws: the segments of the path as they are.\<close>

definition stroke_outline :: "path_cmd list \<Rightarrow> segment list" where
  "stroke_outline cmds = filter (\<lambda>s. \<not> degenerate s) (trace cmds None)"

text \<open>
  The outline of the region that \<open>clip()\<close> and \<open>fill()\<close> take: an open subpath is
  closed first.
\<close>

definition region_outline :: "path_cmd list \<Rightarrow> segment list" where
  "region_outline cmds = filter (\<lambda>s. \<not> degenerate s) (trace (cmds @ [ClosePath]) None)"

text \<open>The calls that put pixels on the surface.\<close>

fun is_paint_call :: "canvas_op \<Rightarrow> bool" where
  "is_paint_call (FillRect _ _ _ _) = True"
| "is_paint_call (DrawImage _ _ _ _ _) = True"
| "is_paint_call (Stroke _) = True"
| "is_paint_call (FillText _ _ _) = True"
| "is_paint_call (StrokeText _ _ _) = True"
| "is_paint_call _ = False"

text \<open>
  The glyphs on a surface: the character and the position of every \<open>fillText\<close> call,
  in call order.
\<close>

fun glyphs :: "canvas_op list \<Rightarrow> (js_string \<times> num \<times> num) list" where
  "glyphs [] = []"
| "glyphs (FillText char x y # ops) = (char, x, y) # glyphs ops"
| "glyphs (_ # ops) = glyphs ops"






section \<open>Example specs\<close>

definition ex_auto :: TextGraphicsOptions where
  "ex_auto = no_options\<lparr>
     tg_content := Some (Lines [ascii ''A'', [], [0x6587, 0x5B57]]),
     tg_borderStyle := Some (no_BorderStyle\<lparr>bs_width := Some 2\<rparr>),
     tg_fontStyle := Some (no_FontStyle\<lparr>fs_size := Some 10, fs_padding := Some (Pad2 1 3),
        fs_rowGap := Some 5, fs_letterSpacing := Some 7\<rparr>)\<rparr>"

definition ex_gradient :: "(num \<times> js_string) list" where
  "ex_gradient = [(0, ascii ''#fff''), (1 / 2, ascii ''#888''), (1, ascii ''#000'')]"

definition ex_image :: TextGraphicsOptions where
  "ex_image = no_options\<lparr>
     tg_content := Some (Text (ascii ''OK'')),
     tg_backgroundStyle := Some (no_BackgroundStyle\<lparr>
        bg_color := Some (SolidColor (ascii ''#00f'')), bg_image := Some (ascii ''a.png'')\<rparr>),
     tg_width := Some (Px 100), tg_height := Some (Px 50)\<rparr>"

definition failing_host :: "unit host" where
  "failing_host = \<lparr>loadImage = (\<lambda>src. Inl ()), to_number = (\<lambda>s. None)\<rparr>"

definition ex_box :: TextGraphicsOptions where
  "ex_box = no_options\<lparr>
     tg_content := Some (Text (ascii ''OK'')),
     tg_backgroundStyle := Some (no_BackgroundStyle\<lparr>bg_color := Some (SolidColor (ascii ''#00f''))\<rparr>),
     tg_width := Some (Px 100), tg_height := Some (Px 50)\<rparr>"

definition zero_border :: "Radius \<Rightarrow> BorderStyle" where
  "zero_border radius = \<lparr>bs_color = Some (ascii ''red''), bs_width = Some 0, bs_radius = Some radius\<rparr>"

definition ex_rect_lines :: RectangleOptions where
  "ex_rect_lines = no_rect_options\<lparr>rc_content := Some (Lines [ascii ''a'', ascii ''bbb''])\<rparr>"



section \<open>Facts about the width model\<close>

lemma foldl_add_sum_list:
  "foldl (\<lambda>w x. w + f x) (a::rat) xs = a + sum_list (map f xs)"
  by (induction xs arbitrary: a) (simp_all add: add.assoc)

lemma get_string_width_sum:
  "get_string_width s = sum_list (map get_char_width (chars_of s))"
  by (simp add: get_string_width_def foldl_add_sum_list)

lemma chars_of_ne: "ch \<in> set (chars_of s) \<Longrightarrow> ch \<noteq> []"
  by (induction s rule: chars_of.induct) (auto split: if_splits)

lemma chars_of_hd_in: "ch \<in> set (chars_of s) \<Longrightarrow> hd ch \<in> set s"
  by (induction s rule: chars_of.induct) (auto split: if_splits)

lemma chars_of_concat: "concat (chars_of s) = s"
  by (induction s rule: chars_of.induct) simp_all

lemma chars_of_length_le: "length (chars_of s) \<le> length s"
  by (induction s rule: chars_of.induct) auto

lemma chars_of_no_pair:
  "\<not> has_surrogate_pair s \<Longrightarrow> chars_of s = map (\<lambda>c. [c]) s"
  unfolding has_surrogate_pair_def
  by (induction s rule: chars_of.induct) (auto split: if_splits)

lemma chars_of_ascii_units:
  "\<forall>c \<in> set s. c < 128 \<Longrightarrow> chars_of s = map (\<lambda>c. [c]) s"
proof (induction s rule: chars_of.induct)
  case (3 c d cs)
  have "c < 128" using 3(3) by simp
  then have "\<not> is_high_surrogate c"
    unfolding is_high_surrogate_def by (simp add: word_less_def word_le_def)
  then show ?case using 3 by simp
qed simp_all

lemma get_char_width_unit:
  "get_char_width [c] = (if c < 128 then 1 / 2 else 1)"
  by (simp add: get_char_width_def charCodeAt0_def)

lemma get_char_width_hd:
  "ch \<noteq> [] \<Longrightarrow> get_char_width ch = (if hd ch < 128 then 1 / 2 else 1)"
  by (cases ch) (simp_all add: get_char_width_def charCodeAt0_def)

lemma sum_list_const_map:
  "(\<forall>x \<in> set xs. f x = (k::rat)) \<Longrightarrow> sum_list (map f xs) = k * of_nat (length xs)"
  by (induction xs) (simp_all add: algebra_simps)

text \<open>
  C4 (as amended). The width of a string is the sum of the per-character factors over
  the characters that the string iterator yields (0.5 when the character's first code
  unit is below 128, 1 otherwise). For a string whose code units are all ASCII this is
  0.5 times its length. For a string with no ASCII code unit it is the number of
  iterated characters (code points), which is the string's length when the string
  holds no surrogate pair.
\<close>

theorem get_string_width_per_character:
  "get_string_width s =
     sum_list (map (\<lambda>ch. if hd ch < 128 then 1 / 2 else 1) (chars_of s))
   \<and> ((\<forall>c \<in> set s. c < 128) \<longrightarrow> get_string_width s = 1 / 2 * of_nat (length s))
   \<and> ((\<forall>c \<in> set s. \<not> c < 128) \<longrightarrow>
        get_string_width s = 1 * of_nat (length (chars_of s))
        \<and> (\<not> has_surrogate_pair s \<longrightarrow> get_string_width s = 1 * of_nat (length s)))"
proof (intro conjI impI)
  have "map get_char_width (chars_of s) =
        map (\<lambda>ch. if hd ch < 128 then 1 / 2 else 1) (chars_of s)"
    by (rule map_cong) (simp_all add: get_char_width_hd chars_of_ne)
  then show "get_string_width s =
     sum_list (map (\<lambda>ch. if hd ch < 128 then 1 / 2 else 1) (chars_of s))"
    by (simp only: get_string_width_sum)
next
  assume a: "\<forall>c \<in> set s. c < 128"
  then have "chars_of s = map (\<lambda>c. [c]) s" by (rule chars_of_ascii_units)
  then have "get_string_width s = sum_list (map (\<lambda>c. get_char_width [c]) s)"
    by (simp add: get_string_width_sum comp_def)
  also have "\<dots> = 1 / 2 * of_nat (length s)"
    by (rule sum_list_const_map) (use a in \<open>simp add: get_char_width_unit\<close>)
  finally show "get_string_width s = 1 / 2 * of_nat (length s)" .
next
  assume a: "\<forall>c \<in> set s. \<not> c < 128"
  have "\<forall>ch \<in> set (chars_of s). get_char_width ch = 1"
    using a chars_of_hd_in chars_of_ne by (auto simp: get_char_width_hd)
  then have "sum_list (map get_char_width (chars_of s)) = 1 * of_nat (length (chars_of s))"
    by (rule sum_list_const_map)
  then show w: "get_string_width s = 1 * of_nat (length (chars_of s))"
    by (simp add: get_string_width_sum)
  assume "\<not> has_surrogate_pair s"
  then have "length (chars_of s) = length s" by (simp add: chars_of_no_pair)
  with w show "get_string_width s = 1 * of_nat (length s)" by simp
qed

theorem get_string_width_astral_counterexample:
  "get_string_width [0xD83D, 0xDE00] \<noteq> 1 * of_nat (length [0xD83D, 0xDE00 :: code_unit])"
  by (simp add: get_string_width_def get_char_width_def charCodeAt0_def
      is_high_surrogate_def is_low_surrogate_def)

theorem get_string_width_per_character_witness:
  "get_string_width (ascii ''OK'') = 1 \<and> get_string_width [0x6587, 0x5B57] = 2
   \<and> get_string_width [0xD83D, 0xDE00] = 1"
proof -
  have a: "\<forall>c \<in> set (ascii ''OK''). c < 128" by (simp add: ascii_def)
  have b: "\<forall>c \<in> set [0x6587, 0x5B57 :: code_unit]. \<not> c < 128" by simp
  have b': "\<not> has_surrogate_pair [0x6587, 0x5B57]"
    by (simp add: has_surrogate_pair_def is_high_surrogate_def)
  have c: "\<forall>c \<in> set [0xD83D, 0xDE00 :: code_unit]. \<not> c < 128" by simp
  have c': "chars_of [0xD83D, 0xDE00] = [[0xD83D, 0xDE00]]"
    by (simp add: is_high_surrogate_def is_low_surrogate_def)
  show ?thesis
    using get_string_width_per_character [of "ascii ''OK''"] a
      get_string_width_per_character [of "[0x6587, 0x5B57]"] b b'
      get_string_width_per_character [of "[0xD83D, 0xDE00]"] c c'
    by (simp add: ascii_def)
qed

section \<open>Facts about the automatic size\<close>

lemma tg_sides_eq:
  "padding_sides (tg_padding options) = (pt, pr, pb, pl) \<Longrightarrow>
   tg_sides options = (pt + tg_borderWidth options, pr + tg_borderWidth options,
                       pb + tg_borderWidth options, pl + tg_borderWidth options)"
  by (simp add: tg_sides_def add_border_def truthy_num_def)

lemma max_text_in: "max_text t ts \<in> set (t # ts)"
  unfolding max_text_def by (induction ts arbitrary: t) auto

lemma max_text_Cons:
  "max_text t (a # ts) = max_text (if get_string_width t > get_string_width a then t else a) ts"
  by (simp add: max_text_def)

lemma max_text_ge: "l \<in> set (t # ts) \<Longrightarrow> get_string_width l \<le> get_string_width (max_text t ts)"
proof (induction ts arbitrary: t l)
  case Nil then show ?case by (simp add: max_text_def)
next
  case (Cons a ts)
  let ?t' = "if get_string_width t > get_string_width a then t else a"
  have step: "get_string_width ?t' \<le> get_string_width (max_text ?t' ts)"
    by (rule Cons.IH) simp
  have ta: "get_string_width t \<le> get_string_width ?t'" "get_string_width a \<le> get_string_width ?t'"
    by simp_all
  from Cons.prems consider "l = t" | "l = a" | "l \<in> set ts" by auto
  then have "get_string_width l \<le> get_string_width (max_text ?t' ts)"
  proof cases
    case 1 then show ?thesis using step ta(1) by (rule_tac order_trans) auto
  next
    case 2 then show ?thesis using step ta(2) by (rule_tac order_trans) auto
  next
    case 3 then show ?thesis by (intro Cons.IH) simp
  qed
  then show ?case by (simp only: max_text_Cons)
qed

lemma max_text_Max: "get_string_width (max_text t ts) = Max (get_string_width ` set (t # ts))"
proof -
  have "Max (get_string_width ` set (t # ts)) = get_string_width (max_text t ts)"
  proof (rule Max_eqI)
    show "finite (get_string_width ` set (t # ts))" by simp
    show "\<And>y. y \<in> get_string_width ` set (t # ts) \<Longrightarrow> y \<le> get_string_width (max_text t ts)"
      using max_text_ge by blast
    show "get_string_width (max_text t ts) \<in> get_string_width ` set (t # ts)"
      using max_text_in by blast
  qed
  then show ?thesis by (rule sym)
qed


text \<open>
  C2. When the width is requested as "auto" and at least one non-empty line remains,
  the resolved width is the largest string width among the lines times the font size,
  plus the letter spacing times (length of the chosen widest line - 1), plus the left
  and right padding, each padding side having first received the border width once (a
  border width of 0 adds nothing).
\<close>

theorem auto_width_resolved:
  assumes auto: "dflt Auto (tg_width options) = Auto"
    and lines: "text_lines (tg_content options) = t # ts"
    and sides: "padding_sides (tg_padding options) = (pt, pr, pb, pl)"
  shows "fst (resolve_size_tg options) =
           Max (get_string_width ` set (t # ts)) * tg_fontSize options
           + tg_letterSpacing options * (of_nat (length (max_text t ts)) - 1)
           + ((pl + tg_borderWidth options) + (pr + tg_borderWidth options))
         \<and> max_text t ts \<in> set (t # ts)
         \<and> get_string_width (max_text t ts) = Max (get_string_width ` set (t # ts))
         \<and> tg_sides options = (pt + tg_borderWidth options, pr + tg_borderWidth options,
                                pb + tg_borderWidth options, pl + tg_borderWidth options)"
proof -
  note s = tg_sides_eq [OF sides]
  have "fst (resolve_size_tg options) =
          get_string_width (max_text t ts) * tg_fontSize options
          + ((pl + tg_borderWidth options) + (pr + tg_borderWidth options))
          + (of_nat (length (max_text t ts)) - 1) * tg_letterSpacing options"
    by (simp add: resolve_size_tg_def s auto lines Let_def)
  then have "fst (resolve_size_tg options) =
           Max (get_string_width ` set (t # ts)) * tg_fontSize options
           + tg_letterSpacing options * (of_nat (length (max_text t ts)) - 1)
           + ((pl + tg_borderWidth options) + (pr + tg_borderWidth options))"
    by (simp only: max_text_Max mult.commute add.commute add.left_commute)
  then show ?thesis
    using s max_text_in [of t ts] max_text_Max [of t ts] by blast
qed

lemma ex_auto_fields:
  "dflt Auto (tg_width ex_auto) = Auto"
  "dflt Auto (tg_height ex_auto) = Auto"
  "text_lines (tg_content ex_auto) = [ascii ''A'', [0x6587, 0x5B57]]"
  "padding_sides (tg_padding ex_auto) = (1, 3, 1, 3)"
  "tg_fontSize ex_auto = 10" "tg_letterSpacing ex_auto = 7" "tg_borderWidth ex_auto = 2"
  "tg_rowGap ex_auto = 5"
  by (simp_all add: ex_auto_def no_options_def no_FontStyle_def no_BorderStyle_def dflt_def
      text_lines_def truthy_str_def ascii_def padding_sides_def tg_padding_def tg_fontSize_def
      tg_letterSpacing_def tg_borderWidth_def tg_rowGap_def)

theorem auto_width_resolved_witness:
  "dflt Auto (tg_width ex_auto) = Auto
   \<and> text_lines (tg_content ex_auto) = [ascii ''A'', [0x6587, 0x5B57]]
   \<and> padding_sides (tg_padding ex_auto) = (1, 3, 1, 3)
   \<and> fst (resolve_size_tg ex_auto) = 2 * 10 + 7 * (2 - 1) + ((3 + 2) + (3 + 2))
   \<and> tg_sides ex_auto = (3, 5, 3, 5)"
proof -
  have m: "max_text (ascii ''A'') [[0x6587, 0x5B57]] = [0x6587, 0x5B57]"
    by (simp add: max_text_def ascii_def get_string_width_def get_char_width_def charCodeAt0_def
        is_high_surrogate_def)
  have g: "get_string_width [0x6587, 0x5B57] = 2"
    by (simp add: get_string_width_def get_char_width_def charCodeAt0_def is_high_surrogate_def)
  show ?thesis
    using auto_width_resolved [OF ex_auto_fields(1) ex_auto_fields(3) ex_auto_fields(4)]
    by (simp add: ex_auto_fields m g)
qed


text \<open>
  C10. When the height is requested as "auto" and at least one non-empty line remains,
  the resolved height is rows * fontSize + top padding + bottom padding + (rows - 1) *
  rowGap, minus 2 when the number of non-empty rows is even and minus 4 when it is odd.
  So a single non-empty line with font size 4, no padding and no border resolves to
  height 0, and the render returns a surface on which nothing has been painted.
\<close>

theorem auto_height_resolved:
  "(dflt Auto (tg_height options) = Auto
      \<and> text_lines (tg_content options) = t # ts
      \<and> padding_sides (tg_padding options) = (pt, pr, pb, pl)
    \<longrightarrow> snd (resolve_size_tg options) =
          of_nat (length (t # ts)) * tg_fontSize options
          + (pt + tg_borderWidth options) + (pb + tg_borderWidth options)
          + (of_nat (length (t # ts)) - 1) * tg_rowGap options
          - (if even (length (t # ts)) then 2 else 4))
   \<and> (s \<noteq> [] \<longrightarrow>
        TextGraphics h (no_options\<lparr>tg_content := Some (Text s),
            tg_fontStyle := Some (no_FontStyle\<lparr>fs_size := Some 4\<rparr>)\<rparr>)
        = Inr \<lparr>cv_width = get_string_width s * 4, cv_height = 0, cv_ops = []\<rparr>)"
proof (intro conjI impI)
  assume a: "dflt Auto (tg_height options) = Auto
      \<and> text_lines (tg_content options) = t # ts
      \<and> padding_sides (tg_padding options) = (pt, pr, pb, pl)"
  then have s: "tg_sides options = (pt + tg_borderWidth options, pr + tg_borderWidth options,
                       pb + tg_borderWidth options, pl + tg_borderWidth options)"
    by (simp add: tg_sides_eq)
  have e: "(length ts mod 2 = Suc 0) = even (Suc (length ts))"
    by presburger
  show "snd (resolve_size_tg options) =
          of_nat (length (t # ts)) * tg_fontSize options
          + (pt + tg_borderWidth options) + (pb + tg_borderWidth options)
          + (of_nat (length (t # ts)) - 1) * tg_rowGap options
          - (if even (length (t # ts)) then 2 else 4)"
    using a by (simp add: resolve_size_tg_def s Let_def mod_Suc e)
next
  let ?o = "no_options\<lparr>tg_content := Some (Text s),
            tg_fontStyle := Some (no_FontStyle\<lparr>fs_size := Some 4\<rparr>)\<rparr>"
  assume "s \<noteq> []"
  then have l: "text_lines (tg_content ?o) = [s]"
    by (simp add: text_lines_def truthy_str_def)
  have f: "tg_fontSize ?o = 4" "tg_rowGap ?o = 0" "tg_letterSpacing ?o = 0"
      "tg_sides ?o = (0, 0, 0, 0)" "dflt Auto (tg_width ?o) = Auto" "dflt Auto (tg_height ?o) = Auto"
    by (simp_all add: tg_fontSize_def tg_rowGap_def tg_letterSpacing_def tg_sides_def
        tg_borderWidth_def tg_padding_def padding_sides_def add_border_def truthy_num_def
        no_options_def no_FontStyle_def no_BorderStyle_def dflt_def)
  have r: "resolve_size_tg ?o = (get_string_width s * 4, 0)"
    unfolding resolve_size_tg_def Let_def l f by (simp add: max_text_def)
  show "TextGraphics h ?o = Inr \<lparr>cv_width = get_string_width s * 4, cv_height = 0, cv_ops = []\<rparr>"
    unfolding TextGraphics_def r f by (simp add: truthy_num_def)
qed

theorem auto_height_resolved_witness:
  "dflt Auto (tg_height ex_auto) = Auto
   \<and> text_lines (tg_content ex_auto) = [ascii ''A'', [0x6587, 0x5B57]]
   \<and> padding_sides (tg_padding ex_auto) = (1, 3, 1, 3)
   \<and> snd (resolve_size_tg ex_auto) = 2 * 10 + (1 + 2) + (1 + 2) + (2 - 1) * 5 - 2
   \<and> ascii ''a'' \<noteq> []
   \<and> TextGraphics \<lparr>loadImage = (\<lambda>src. Inl ()), to_number = (\<lambda>s. None)\<rparr>
        (no_options\<lparr>tg_content := Some (Text (ascii ''a'')),
            tg_fontStyle := Some (no_FontStyle\<lparr>fs_size := Some 4\<rparr>)\<rparr>)
      = Inr \<lparr>cv_width = 2, cv_height = 0, cv_ops = []\<rparr>"
proof -
  have g: "get_string_width (ascii ''a'') = 1 / 2"
    by (simp add: get_string_width_def get_char_width_def charCodeAt0_def ascii_def)
  have n: "ascii ''a'' \<noteq> []" by (simp add: ascii_def)
  show ?thesis
    using auto_height_resolved [of ex_auto "ascii ''A''" "[[0x6587, 0x5B57]]" 1 3 1 3 "ascii ''a''"
        "\<lparr>loadImage = (\<lambda>src. Inl ()), to_number = (\<lambda>s. None)\<rparr>"]
    by (simp add: ex_auto_fields g n)
qed

text \<open>
  C5. With the content absent and both dimensions requested as "auto", the resolved
  size is 0 by 0, no call is made on the surface (no background, border or text
  painter runs), and the render returns that surface: it does not fail.
\<close>

theorem absent_content_empty_surface:
  assumes "tg_content options = None"
    and "dflt Auto (tg_width options) = Auto"
    and "dflt Auto (tg_height options) = Auto"
  shows "resolve_size_tg options = (0, 0)
         \<and> TextGraphics h options = Inr \<lparr>cv_width = 0, cv_height = 0, cv_ops = []\<rparr>"
proof -
  have r: "resolve_size_tg options = (0, 0)"
    using assms by (simp add: resolve_size_tg_def text_lines_def Let_def split: prod.splits)
  show ?thesis
    unfolding TextGraphics_def r by (simp add: truthy_num_def split: prod.splits)
qed

theorem absent_content_empty_surface_witness:
  "tg_content no_options = None
   \<and> dflt Auto (tg_width no_options) = Auto
   \<and> dflt Auto (tg_height no_options) = Auto
   \<and> resolve_size_tg no_options = (0, 0)
   \<and> TextGraphics \<lparr>loadImage = (\<lambda>src. Inl ()), to_number = (\<lambda>s. None)\<rparr> no_options
       = Inr \<lparr>cv_width = 0, cv_height = 0, cv_ops = []\<rparr>"
proof -
  have f: "tg_content no_options = None" "dflt Auto (tg_width no_options) = Auto"
    "dflt Auto (tg_height no_options) = Auto"
    by (simp_all add: no_options_def dflt_def)
  show ?thesis
    using absent_content_empty_surface [OF f,
        of "\<lparr>loadImage = (\<lambda>src. Inl ()), to_number = (\<lambda>s. None)\<rparr>"] f
    by simp
qed

section \<open>Facts about the text layout\<close>

lemma glyphs_append: "glyphs (a @ b) = glyphs a @ glyphs b"
  by (induction a rule: glyphs.induct) simp_all













text \<open>
  The glyphs on the surface that \<open>TextGraphics\<close> returns are those of its call of
  \<open>drawText\<close>, with the width left between the paddings as the available width.
\<close>

lemma glyphs_map_PathCmd: "glyphs (map PathCmd cmds) = []"
  by (induction cmds) simp_all

lemma glyphs_map_AddColorStop: "glyphs (map (\<lambda>key. AddColorStop key (f key)) keys) = []"
  by (induction keys) simp_all

lemma glyphs_gradient_stops: "glyphs (gradient_stops g) = []"
  by (simp add: gradient_stops_def glyphs_map_AddColorStop)

lemma glyphs_drawCtx:
  "drawCtx h width height radius backgroundStyle = Inr ops \<Longrightarrow> glyphs ops = []"
  by (auto simp: drawCtx_def Let_def fill_background_def draw_image_def glyphs_append
      glyphs_map_PathCmd glyphs_gradient_stops
      split: if_splits option.splits sum.splits BackgroundColor.splits prod.splits)

lemma glyphs_drawBorder: "glyphs (drawBorder width height borderStyle) = []"
  by (simp add: drawBorder_def Let_def)

lemma TextGraphics_glyphs:
  assumes "TextGraphics h options = Inr cv"
    and "tg_sides options = (pt, pr, pb, pl)"
    and "cv_width cv \<noteq> 0" and "cv_height cv \<noteq> 0"
  shows "glyphs (cv_ops cv) =
           glyphs (drawText (text_lines (tg_content options)) (Some (cv_width cv - (pl + pr)))
                     (tg_fontStyle options) pt pl (tg_rowGap options))"
  using assms
  by (auto simp: TextGraphics_def truthy_num_def glyphs_append glyphs_drawBorder
      dest: glyphs_drawCtx split: prod.splits if_splits sum.splits)

section \<open>Facts about the gradient stops\<close>

lemma distinct_first_occurrences: "distinct (first_occurrences xs)"
  by (simp add: first_occurrences_def)

lemma set_first_occurrences: "set (first_occurrences xs) = set xs"
  by (simp add: first_occurrences_def)

lemma first_occurrences_distinct: "distinct xs \<Longrightarrow> first_occurrences xs = xs"
  by (simp add: first_occurrences_def distinct_remdups_id)

lemma distinct_Object_keys: "distinct (Object_keys obj)"
  by (auto simp: Object_keys_def distinct_first_occurrences set_first_occurrences)

lemma set_Object_keys: "set (Object_keys obj) = fst ` set obj"
  by (auto simp: Object_keys_def set_first_occurrences)

lemma index_Object_keys:
  "filter is_array_index (Object_keys obj) = sort (remdups (filter is_array_index (map fst obj)))"
proof -
  have a: "filter is_array_index (sort (remdups (filter is_array_index (map fst obj))))
           = sort (remdups (filter is_array_index (map fst obj)))"
    by (rule filter_True) simp
  have b: "filter is_array_index (first_occurrences (filter (\<lambda>k. \<not> is_array_index k) (map fst obj))) = []"
    by (rule filter_False) (simp add: set_first_occurrences)
  show ?thesis by (simp only: Object_keys_def filter_append a b append_Nil2)
qed

lemma other_Object_keys:
  "filter (\<lambda>k. \<not> is_array_index k) (Object_keys obj)
     = first_occurrences (filter (\<lambda>k. \<not> is_array_index k) (map fst obj))"
proof -
  have a: "filter (\<lambda>k. \<not> is_array_index k) (sort (remdups (filter is_array_index (map fst obj)))) = []"
    by (rule filter_False) simp
  have b: "filter (\<lambda>k. \<not> is_array_index k)
             (first_occurrences (filter (\<lambda>k. \<not> is_array_index k) (map fst obj)))
           = first_occurrences (filter (\<lambda>k. \<not> is_array_index k) (map fst obj))"
    by (rule filter_True) (simp add: set_first_occurrences)
  show ?thesis by (simp only: Object_keys_def filter_append a b append_Nil)
qed

lemma obj_get_key:
  assumes "k \<in> fst ` set obj"
  shows "\<exists>c. obj_get obj k = Some c \<and> (k, c) \<in> set obj"
proof -
  have "k \<in> fst ` set (rev obj)" using assms by simp
  then have "map_of (rev obj) k \<noteq> None" by (simp only: map_of_eq_None_iff not_not)
  then obtain c where c: "map_of (rev obj) k = Some c" by blast
  then have "(k, c) \<in> set (rev obj)" by (rule map_of_SomeD)
  with c show ?thesis by (simp add: obj_get_def)
qed

text \<open>
  C7 (as amended). For a gradient map, exactly one stop is added per key, at the
  position of the key and with the colour stored under it. The stops are added in the
  order of \<open>Object.keys\<close>: the keys that are array indices (0 and 1 among the
  positions) first and ascending, then the other keys in the order of their creation.
  The map {0: "#fff", 1: "#000"} gives two stops, 0 before 1, in whichever order its
  two keys were written.
\<close>

theorem gradient_stops_in_key_order:
  "length (gradient_stops g) = card (fst ` set g)
   \<and> map (\<lambda>k. AddColorStop k (obj_get g k)) (Object_keys g) = gradient_stops g
   \<and> distinct (Object_keys g)
   \<and> set (Object_keys g) = fst ` set g
   \<and> (\<forall>k \<in> set (Object_keys g). \<exists>c. obj_get g k = Some c \<and> (k, c) \<in> set g)
   \<and> Object_keys g = filter is_array_index (Object_keys g)
                      @ filter (\<lambda>k. \<not> is_array_index k) (Object_keys g)
   \<and> sorted (filter is_array_index (Object_keys g))
   \<and> (distinct (map fst g) \<longrightarrow>
        filter (\<lambda>k. \<not> is_array_index k) (Object_keys g)
        = filter (\<lambda>k. \<not> is_array_index k) (map fst g))
   \<and> gradient_stops [(0, ascii ''#fff''), (1, ascii ''#000'')]
       = [AddColorStop 0 (Some (ascii ''#fff'')), AddColorStop 1 (Some (ascii ''#000''))]
   \<and> gradient_stops [(1, ascii ''#000''), (0, ascii ''#fff'')]
       = [AddColorStop 0 (Some (ascii ''#fff'')), AddColorStop 1 (Some (ascii ''#000''))]"
proof (intro conjI impI ballI)
  have "length (gradient_stops g) = length (Object_keys g)" by (simp add: gradient_stops_def)
  also have "\<dots> = card (set (Object_keys g))"
    by (simp add: distinct_card distinct_Object_keys)
  finally show "length (gradient_stops g) = card (fst ` set g)" by (simp only: set_Object_keys)
next
  show "Object_keys g = filter is_array_index (Object_keys g)
                      @ filter (\<lambda>k. \<not> is_array_index k) (Object_keys g)"
    unfolding index_Object_keys other_Object_keys by (simp only: Object_keys_def)
next
  show "sorted (filter is_array_index (Object_keys g))"
    by (simp only: index_Object_keys sorted_sort)
next
  assume "distinct (map fst g)"
  then have "distinct (filter (\<lambda>k. \<not> is_array_index k) (map fst g))" by (rule distinct_filter)
  then show "filter (\<lambda>k. \<not> is_array_index k) (Object_keys g)
        = filter (\<lambda>k. \<not> is_array_index k) (map fst g)"
    by (simp only: other_Object_keys first_occurrences_distinct)
next
  fix k assume "k \<in> set (Object_keys g)"
  then show "\<exists>c. obj_get g k = Some c \<and> (k, c) \<in> set g"
    by (simp only: set_Object_keys obj_get_key)
next
  show "gradient_stops [(0, ascii ''#fff''), (1, ascii ''#000'')]
       = [AddColorStop 0 (Some (ascii ''#fff'')), AddColorStop 1 (Some (ascii ''#000''))]"
    by (simp add: gradient_stops_def Object_keys_def first_occurrences_def is_array_index_def
        obj_get_def)
next
  show "gradient_stops [(1, ascii ''#000''), (0, ascii ''#fff'')]
       = [AddColorStop 0 (Some (ascii ''#fff'')), AddColorStop 1 (Some (ascii ''#000''))]"
    by (simp add: gradient_stops_def Object_keys_def first_occurrences_def is_array_index_def
        obj_get_def)
qed (simp_all add: gradient_stops_def distinct_Object_keys set_Object_keys)

lemma half_not_array_index: "\<not> is_array_index (1 / 2)"
proof
  have f: "\<lfloor>1 / 2 :: rat\<rfloor> = 0" by (rule floor_unique) simp_all
  assume "is_array_index (1 / 2)"
  then have "(1 / 2 :: rat) = of_int \<lfloor>1 / 2 :: rat\<rfloor>" by (simp only: is_array_index_def)
  then have "(1 / 2 :: rat) = 0" by (simp only: f of_int_0)
  then show False by simp
qed

lemma zero_one_array_index: "is_array_index 0" "is_array_index 1"
  by (simp_all add: is_array_index_def)

theorem gradient_stops_not_ascending_counterexample:
  "gradient_stops ex_gradient
     = [AddColorStop 0 (Some (ascii ''#fff'')), AddColorStop 1 (Some (ascii ''#000'')),
        AddColorStop (1 / 2) (Some (ascii ''#888''))]
   \<and> \<not> sorted (Object_keys ex_gradient)"
proof -
  have m: "map fst ex_gradient = [0, 1 / 2, 1]" by (simp add: ex_gradient_def)
  have k: "Object_keys ex_gradient = [0, 1, 1 / 2]"
    by (simp add: Object_keys_def m zero_one_array_index half_not_array_index
        first_occurrences_def)
  have g: "obj_get ex_gradient 0 = Some (ascii ''#fff'')"
    "obj_get ex_gradient 1 = Some (ascii ''#000'')"
    "obj_get ex_gradient (1 / 2) = Some (ascii ''#888'')"
    by (simp_all add: obj_get_def ex_gradient_def)
  have "\<not> (1::rat) \<le> 1 / 2" by simp
  then have s: "\<not> sorted [0, 1, 1 / 2 :: rat]" by (simp only: sorted2 sorted1 simp_thms)
  show ?thesis
    unfolding gradient_stops_def k using s by (simp only: list.map g simp_thms)
qed

theorem gradient_stops_in_key_order_witness:
  "distinct (map fst ex_gradient)
   \<and> Object_keys ex_gradient = [0, 1, 1 / 2]
   \<and> length (gradient_stops ex_gradient) = 3
   \<and> filter is_array_index (Object_keys ex_gradient) = [0, 1]
   \<and> filter (\<lambda>k. \<not> is_array_index k) (Object_keys ex_gradient) = [1 / 2]"
proof -
  have d: "distinct (map fst ex_gradient)" by (simp add: ex_gradient_def)
  note i = zero_one_array_index half_not_array_index
  have m: "map fst ex_gradient = [0, 1 / 2, 1]" by (simp add: ex_gradient_def)
  have k: "Object_keys ex_gradient = [0, 1, 1 / 2]"
    by (simp add: Object_keys_def m i first_occurrences_def)
  have len: "length (gradient_stops ex_gradient) = 3" by (simp add: gradient_stops_def k)
  show ?thesis
    using gradient_stops_in_key_order [of ex_gradient] d len
    by (simp add: k i m)
qed

section \<open>Facts about the image load\<close>

lemma drawCtx_load_fails:
  assumes "bg_image (dflt no_BackgroundStyle backgroundStyle) = Some src"
    and "src \<noteq> []" and "loadImage h src = Inl e"
  shows "drawCtx h width height radius backgroundStyle = Inl e"
  using assms by (simp add: drawCtx_def Let_def truthy_ostr_def truthy_str_def)

text \<open>
  C8. If the render reaches the load of the background image (both resolved dimensions
  are non-zero and an image source is set) and the load fails, the render fails with the
  same error: no surface is returned.
\<close>

theorem image_load_failure_fails_render:
  assumes "resolve_size_tg options = (width, height)"
    and "width \<noteq> 0" and "height \<noteq> 0"
    and "bg_image (dflt no_BackgroundStyle (tg_backgroundStyle options)) = Some src"
    and "src \<noteq> []"
    and "loadImage h src = Inl e"
  shows "TextGraphics h options = Inl e"
proof -
  have "drawCtx h width height (tg_borderRadius options) (tg_backgroundStyle options) = Inl e"
    using assms(4-6) by (rule drawCtx_load_fails)
  then show ?thesis
    using assms(1-3) by (simp add: TextGraphics_def truthy_num_def split: prod.splits)
qed

theorem image_load_failure_fails_render_witness:
  "resolve_size_tg ex_image = (100, 50)
   \<and> bg_image (dflt no_BackgroundStyle (tg_backgroundStyle ex_image)) = Some (ascii ''a.png'')
   \<and> ascii ''a.png'' \<noteq> []
   \<and> loadImage failing_host (ascii ''a.png'') = Inl ()
   \<and> TextGraphics failing_host ex_image = Inl ()"
proof -
  have r: "resolve_size_tg ex_image = (100, 50)"
    by (simp add: resolve_size_tg_def ex_image_def no_options_def dflt_def Let_def
        split: prod.splits list.splits)
  have b: "bg_image (dflt no_BackgroundStyle (tg_backgroundStyle ex_image)) = Some (ascii ''a.png'')"
    by (simp add: ex_image_def no_options_def no_BackgroundStyle_def dflt_def)
  have n: "ascii ''a.png'' \<noteq> []" by (simp add: ascii_def)
  have l: "loadImage failing_host (ascii ''a.png'') = Inl ()" by (simp add: failing_host_def)
  have "(100::num) \<noteq> 0" "(50::num) \<noteq> 0" by simp_all
  from image_load_failure_fails_render [OF r this b n l] r b n l
  show ?thesis by simp
qed

section \<open>Facts about the outlines\<close>

lemmas path_eval = drawBorder_path_def drawCtx_path_def rect_drawCtx_path_def radii_def
  truthy_num_def stroke_outline_def region_outline_def arc_point_def

lemma set_filter_Cons:
  "set (filter P (x # xs)) = (if P x then {x} else {}) \<union> set (filter P xs)"
  by simp

lemma trace_drawBorder_uniform:
  "trace (drawBorder_path w h (Rad1 r)) None =
     [Line (r, 0) (w - r, 0), Line (w - r, 0) (w - r, 0), Quarter (w - r, r) r PI_15 PI_0,
      Line (w, r) (w, h - r), Line (w, h - r) (w, h - r), Quarter (w - r, h - r) r PI_0 PI_05,
      Line (w - r, h) (r, h), Line (r, h) (r, h), Quarter (r, h - r) r PI_05 PI_1,
      Line (0, h - r) (0, r), Line (0, r) (0, r), Quarter (r, r) r PI_1 PI_15]"
  by (simp add: drawBorder_path_def radii_def arc_point_def)

lemma trace_rect_drawCtx_uniform:
  "trace (rect_drawCtx_path w h (Rad1 r) @ [ClosePath]) None =
     [Quarter (r, r) r PI_1 PI_15, Line (r, 0) (w - r, 0), Line (w - r, 0) (w - r, 0),
      Quarter (w - r, r) r PI_15 PI_0, Line (w, r) (w, h - r), Line (w, h - r) (w, h - r),
      Quarter (w - r, h - r) r PI_0 PI_05, Line (w - r, h) (r, h), Line (r, h) (r, h),
      Quarter (r, h - r) r PI_05 PI_1, Line (0, h - r) (0, r), Line (0, r) (0, r)]"
  by (simp add: rect_drawCtx_path_def radii_def arc_point_def)

lemma trace_drawCtx_uniform:
  "r \<noteq> 0 \<Longrightarrow> trace (drawCtx_path w h (Rad1 r) @ [ClosePath]) None =
     [Quarter (r, r) r PI_1 PI_15, Line (r, 0) (w - r, 0), Line (w - r, 0) (w - r, 0),
      Quarter (w - r, r) r PI_15 PI_0, Line (w, r) (w, h - r), Line (w, h - r) (w, h - r),
      Quarter (w - r, h - r) r PI_0 PI_05, Line (w - r, h) (r, h), Line (r, h) (r, h),
      Quarter (r, h - r) r PI_05 PI_1, Line (0, h - r) (0, r)]"
  by (simp add: drawCtx_path_def radii_def arc_point_def truthy_num_def)

lemma trace_drawCtx_square:
  "trace (drawCtx_path w h (Rad1 0) @ [ClosePath]) None =
     [Line (0, 0) (w, 0), Line (w, 0) (w, h), Line (w, h) (0, h), Line (0, h) (0, 0)]"
  by (simp add: drawCtx_path_def radii_def arc_point_def truthy_num_def)

text \<open>With one radius for all four corners the three paths trace the same outline.\<close>

lemma uniform_radius_same_outline_rect:
  "set (stroke_outline (drawBorder_path w h (Rad1 r)))
     = set (region_outline (rect_drawCtx_path w h (Rad1 r)))"
  unfolding stroke_outline_def region_outline_def trace_drawBorder_uniform trace_rect_drawCtx_uniform
  apply (simp only: set_filter_Cons filter.simps(1) list.set(1))
  apply (simp add: Un_ac insert_commute split del: if_split cong: if_cong)
  done

lemma uniform_radius_same_outline:
  "set (stroke_outline (drawBorder_path w h (Rad1 r)))
     = set (region_outline (drawCtx_path w h (Rad1 r)))"
proof (cases "r = 0")
  case True
  show ?thesis
    unfolding stroke_outline_def region_outline_def trace_drawBorder_uniform True trace_drawCtx_square
    apply (simp only: set_filter_Cons filter.simps(1) list.set(1))
    apply (simp add: Un_ac insert_commute split del: if_split cong: if_cong)
    done
next
  case False
  show ?thesis
    unfolding stroke_outline_def region_outline_def trace_drawBorder_uniform
      trace_drawCtx_uniform [OF False]
    apply (simp only: set_filter_Cons filter.simps(1) list.set(1))
    apply (simp add: Un_ac insert_commute False split del: if_split cong: if_cong)
    done
qed

text \<open>
  The corners of the two painters, all radii non-zero: \<open>drawCtx\<close> gives each corner its
  own radius, \<open>drawBorder\<close> gives the top-right corner \<open>lt\<close>, the bottom-right corner
  \<open>lb\<close>, the bottom-left corner \<open>rt\<close> and the top-left corner \<open>rb\<close>.
\<close>

lemma drawCtx_corner_arcs:
  "lt \<noteq> 0 \<Longrightarrow> rt \<noteq> 0 \<Longrightarrow> rb \<noteq> 0 \<Longrightarrow> lb \<noteq> 0 \<Longrightarrow>
   corner_arcs (drawCtx_path w h (Rad4 lt rt rb lb)) =
     [(lt, lt, lt, PI_1, PI_15), (w - rt, rt, rt, PI_15, PI_0),
      (w - rb, h - rb, rb, PI_0, PI_05), (lb, h - lb, lb, PI_05, PI_1)]"
  by (simp add: path_eval)

lemma drawBorder_corner_arcs:
  "lt \<noteq> 0 \<Longrightarrow> rt \<noteq> 0 \<Longrightarrow> rb \<noteq> 0 \<Longrightarrow> lb \<noteq> 0 \<Longrightarrow>
   corner_arcs (drawBorder_path w h (Rad4 lt rt rb lb)) =
     [(w - lt, lt, lt, PI_15, PI_0), (w - lb, h - lb, lb, PI_0, PI_05),
      (rt, h - rt, rt, PI_05, PI_1), (rb, rb, rb, PI_1, PI_15)]"
  by (simp add: path_eval)

text \<open>
  C1. The claim is that the border pass and the background pass trace the same outline,
  each of the four radii on its own corner. Evaluated for a box of 100 by 50 with the
  radii 10, 20, 5, 15 (top-left, top-right, bottom-right, bottom-left): the background
  paths of both presets round the corners with 10, 20, 5, 15 in that order, while the
  border path rounds top-right with 10, bottom-right with 15, bottom-left with 20 and
  top-left with 5, starts at (10, 0) and ends at (5, 0). The two outlines differ.
\<close>

theorem border_outline_differs_from_fill:
  "region_outline (drawCtx_path 100 50 (Rad4 10 20 5 15)) =
     [Quarter (10, 10) 10 PI_1 PI_15, Line (10, 0) (80, 0),
      Quarter (80, 20) 20 PI_15 PI_0, Line (100, 20) (100, 45),
      Quarter (95, 45) 5 PI_0 PI_05, Line (95, 50) (15, 50),
      Quarter (15, 35) 15 PI_05 PI_1, Line (0, 35) (0, 10)]
   \<and> region_outline (rect_drawCtx_path 100 50 (Rad4 10 20 5 15)) =
       region_outline (drawCtx_path 100 50 (Rad4 10 20 5 15))
   \<and> stroke_outline (drawBorder_path 100 50 (Rad4 10 20 5 15)) =
     [Line (10, 0) (90, 0), Quarter (90, 10) 10 PI_15 PI_0,
      Line (100, 10) (100, 35), Quarter (85, 35) 15 PI_0 PI_05,
      Line (85, 50) (20, 50), Quarter (20, 30) 20 PI_05 PI_1,
      Line (0, 30) (0, 5), Quarter (5, 5) 5 PI_1 PI_15]
   \<and> set (stroke_outline (drawBorder_path 100 50 (Rad4 10 20 5 15)))
       \<noteq> set (region_outline (drawCtx_path 100 50 (Rad4 10 20 5 15)))"
proof -
  have r: "region_outline (drawCtx_path 100 50 (Rad4 10 20 5 15)) =
     [Quarter (10, 10) 10 PI_1 PI_15, Line (10, 0) (80, 0),
      Quarter (80, 20) 20 PI_15 PI_0, Line (100, 20) (100, 45),
      Quarter (95, 45) 5 PI_0 PI_05, Line (95, 50) (15, 50),
      Quarter (15, 35) 15 PI_05 PI_1, Line (0, 35) (0, 10)]"
    by (simp add: path_eval)
  have r': "region_outline (rect_drawCtx_path 100 50 (Rad4 10 20 5 15)) =
       region_outline (drawCtx_path 100 50 (Rad4 10 20 5 15))"
    by (simp add: path_eval)
  have s: "stroke_outline (drawBorder_path 100 50 (Rad4 10 20 5 15)) =
     [Line (10, 0) (90, 0), Quarter (90, 10) 10 PI_15 PI_0,
      Line (100, 10) (100, 35), Quarter (85, 35) 15 PI_0 PI_05,
      Line (85, 50) (20, 50), Quarter (20, 30) 20 PI_05 PI_1,
      Line (0, 30) (0, 5), Quarter (5, 5) 5 PI_1 PI_15]"
    by (simp add: path_eval)
  have "Quarter (80, 20) 20 PI_15 PI_0 \<in> set (region_outline (drawCtx_path 100 50 (Rad4 10 20 5 15)))"
    unfolding r by simp
  moreover have "Quarter (80, 20) 20 PI_15 PI_0
      \<notin> set (stroke_outline (drawBorder_path 100 50 (Rad4 10 20 5 15)))"
    unfolding s by simp
  ultimately have "set (stroke_outline (drawBorder_path 100 50 (Rad4 10 20 5 15)))
       \<noteq> set (region_outline (drawCtx_path 100 50 (Rad4 10 20 5 15)))"
    by blast
  with r r' s show ?thesis by blast
qed

section \<open>Facts about the border pass\<close>

lemma drawBorder_none: "drawBorder w h None = []"
  by (simp add: drawBorder_def dflt_def no_BorderStyle_def truthy_num_def)

lemma drawBorder_skipped:
  "dflt 0 (bs_width bs) = 0 \<or> \<not> truthy_ostr (bs_color bs) \<Longrightarrow> drawBorder w h (Some bs) = []"
  by (auto simp: drawBorder_def dflt_def truthy_num_def Let_def)

text \<open>The border pass of the minimal preset has no such test: it always strokes.\<close>

lemma rect_drawBorder_always_strokes:
  "filter is_paint_call (rect_drawBorder w h bs)
     = [Stroke (drawBorder_path w h (dflt (Rad1 0) (bs_radius (dflt no_BorderStyle bs))))]"
  by (simp add: rect_drawBorder_def Let_def)

lemma drawCtx_path_radii:
  "radii r1 = radii r2 \<Longrightarrow> drawCtx_path w h r1 = drawCtx_path w h r2"
  by (simp add: drawCtx_path_def)

lemma drawCtx_radii:
  "radii r1 = radii r2 \<Longrightarrow> drawCtx host w h r1 bg = drawCtx host w h r2 bg"
  using drawCtx_path_radii [of r1 r2 w h] by (simp add: drawCtx_def Let_def)

text \<open>What \<open>TextGraphics\<close> reads of the border style.\<close>

lemma TextGraphics_border_cong:
  assumes "tg_content o1 = tg_content o2" "tg_fontStyle o1 = tg_fontStyle o2"
    "tg_backgroundStyle o1 = tg_backgroundStyle o2"
    "tg_width o1 = tg_width o2" "tg_height o1 = tg_height o2"
    "tg_borderWidth o1 = tg_borderWidth o2"
    "radii (tg_borderRadius o1) = radii (tg_borderRadius o2)"
    "\<And>w h. drawBorder w h (tg_borderStyle o1) = drawBorder w h (tg_borderStyle o2)"
  shows "TextGraphics host o1 = TextGraphics host o2"
proof -
  have s: "tg_sides o1 = tg_sides o2"
    using assms(2,6) by (simp add: tg_sides_def tg_padding_def)
  have r: "resolve_size_tg o1 = resolve_size_tg o2"
    using assms(1,2,4,5) s
    by (simp add: resolve_size_tg_def tg_fontSize_def tg_rowGap_def tg_letterSpacing_def)
  have d: "drawCtx host w h (tg_borderRadius o1) bg = drawCtx host w h (tg_borderRadius o2) bg"
    for w h bg using assms(7) by (rule drawCtx_radii)
  have g: "tg_rowGap o1 = tg_rowGap o2"
    using assms(2) by (simp add: tg_rowGap_def)
  show ?thesis
    unfolding TextGraphics_def s r d g assms(8) assms(1) assms(2) assms(3) by (rule refl)
qed

text \<open>
  C3 (as amended). In TextGraphics the border pass makes no call on the surface when
  the border width is 0 (or unset) or the border colour is unset (or empty). Rendering
  a spec with a zero-width border gives the same surface as rendering the same spec
  with a border style that keeps only the radius; it gives the same surface as no
  border style at all when that radius is absent or 0 on all four corners.
\<close>

theorem zero_width_border_skipped:
  "((dflt 0 (bs_width bs) = 0 \<or> \<not> truthy_ostr (bs_color bs)) \<longrightarrow> drawBorder w h (Some bs) = [])
   \<and> drawBorder w h None = []
   \<and> (dflt 0 (bs_width bs) = 0 \<longrightarrow>
        TextGraphics host (options\<lparr>tg_borderStyle := Some bs\<rparr>)
        = TextGraphics host (options\<lparr>tg_borderStyle :=
            Some (no_BorderStyle\<lparr>bs_radius := bs_radius bs\<rparr>)\<rparr>))
   \<and> (dflt 0 (bs_width bs) = 0 \<and> radii (dflt (Rad1 0) (bs_radius bs)) = (0, 0, 0, 0) \<longrightarrow>
        TextGraphics host (options\<lparr>tg_borderStyle := Some bs\<rparr>)
        = TextGraphics host (options\<lparr>tg_borderStyle := None\<rparr>))"
proof (intro conjI impI)
  assume "dflt 0 (bs_width bs) = 0 \<or> \<not> truthy_ostr (bs_color bs)"
  then show "drawBorder w h (Some bs) = []" by (rule drawBorder_skipped)
next
  show "drawBorder w h None = []" by (rule drawBorder_none)
next
  assume z: "dflt 0 (bs_width bs) = 0"
  show "TextGraphics host (options\<lparr>tg_borderStyle := Some bs\<rparr>)
        = TextGraphics host (options\<lparr>tg_borderStyle :=
            Some (no_BorderStyle\<lparr>bs_radius := bs_radius bs\<rparr>)\<rparr>)"
  proof (rule TextGraphics_border_cong)
    fix w h
    show "drawBorder w h (tg_borderStyle (options\<lparr>tg_borderStyle := Some bs\<rparr>))
        = drawBorder w h (tg_borderStyle (options\<lparr>tg_borderStyle :=
            Some (no_BorderStyle\<lparr>bs_radius := bs_radius bs\<rparr>)\<rparr>))"
      using z by (simp add: drawBorder_skipped no_BorderStyle_def dflt_def)
  qed (use z in \<open>simp_all add: tg_borderWidth_def tg_borderRadius_def no_BorderStyle_def dflt_def\<close>)
next
  assume z: "dflt 0 (bs_width bs) = 0 \<and> radii (dflt (Rad1 0) (bs_radius bs)) = (0, 0, 0, 0)"
  show "TextGraphics host (options\<lparr>tg_borderStyle := Some bs\<rparr>)
        = TextGraphics host (options\<lparr>tg_borderStyle := None\<rparr>)"
  proof (rule TextGraphics_border_cong)
    fix w h
    show "drawBorder w h (tg_borderStyle (options\<lparr>tg_borderStyle := Some bs\<rparr>))
        = drawBorder w h (tg_borderStyle (options\<lparr>tg_borderStyle := None\<rparr>))"
      using z by (simp add: drawBorder_skipped drawBorder_none)
  qed (use z in \<open>simp_all add: tg_borderWidth_def tg_borderRadius_def no_BorderStyle_def dflt_def
         radii_def\<close>)
qed

lemmas tg_eval = TextGraphics_def resolve_size_tg_def tg_sides_def tg_padding_def tg_borderWidth_def
  tg_borderRadius_def tg_fontSize_def tg_rowGap_def tg_letterSpacing_def padding_sides_def
  add_border_def truthy_num_def truthy_str_def truthy_ostr_def truthy_color_def text_lines_def dflt_def
  no_options_def no_FontStyle_def no_BorderStyle_def no_BackgroundStyle_def
  drawCtx_def drawCtx_path_def radii_def fill_background_def drawBorder_def Let_def

theorem zero_width_border_radius_counterexample:
  "TextGraphics failing_host (ex_box\<lparr>tg_borderStyle := Some (zero_border (Rad1 10))\<rparr>)
     \<noteq> TextGraphics failing_host (ex_box\<lparr>tg_borderStyle := None\<rparr>)
   \<and> Quarter (10, 10) 10 PI_1 PI_15 \<in> set (region_outline (drawCtx_path 100 50
         (tg_borderRadius (ex_box\<lparr>tg_borderStyle := Some (zero_border (Rad1 10))\<rparr>))))
   \<and> Quarter (10, 10) 10 PI_1 PI_15 \<notin> set (region_outline (drawCtx_path 100 50
         (tg_borderRadius (ex_box\<lparr>tg_borderStyle := None\<rparr>))))"
proof -
  have a: "tg_borderRadius (ex_box\<lparr>tg_borderStyle := Some (zero_border (Rad1 10))\<rparr>) = Rad1 10"
    "tg_borderRadius (ex_box\<lparr>tg_borderStyle := None\<rparr>) = Rad1 0"
    by (simp_all add: tg_borderRadius_def zero_border_def no_BorderStyle_def dflt_def)
  have "TextGraphics failing_host (ex_box\<lparr>tg_borderStyle := Some (zero_border (Rad1 10))\<rparr>)
     \<noteq> TextGraphics failing_host (ex_box\<lparr>tg_borderStyle := None\<rparr>)"
    by (simp add: ex_box_def zero_border_def tg_eval ascii_def)
  then show ?thesis
    unfolding a by (simp add: path_eval)
qed

theorem zero_width_border_skipped_witness:
  "dflt 0 (bs_width (zero_border (Rad1 10))) = 0
   \<and> drawBorder 100 50 (Some (zero_border (Rad1 10))) = []
   \<and> TextGraphics failing_host (ex_box\<lparr>tg_borderStyle := Some (zero_border (Rad1 10))\<rparr>)
       = TextGraphics failing_host (ex_box\<lparr>tg_borderStyle :=
           Some (no_BorderStyle\<lparr>bs_radius := Some (Rad1 10)\<rparr>)\<rparr>)
   \<and> radii (dflt (Rad1 0) (bs_radius (zero_border (Rad4 0 0 0 0)))) = (0, 0, 0, 0)
   \<and> TextGraphics failing_host (ex_box\<lparr>tg_borderStyle := Some (zero_border (Rad4 0 0 0 0))\<rparr>)
       = TextGraphics failing_host (ex_box\<lparr>tg_borderStyle := None\<rparr>)"
proof -
  have z: "dflt 0 (bs_width (zero_border r)) = 0" for r
    by (simp add: zero_border_def dflt_def)
  have q: "radii (dflt (Rad1 0) (bs_radius (zero_border (Rad4 0 0 0 0)))) = (0, 0, 0, 0)"
    by (simp add: zero_border_def dflt_def radii_def)
  have b: "bs_radius (zero_border (Rad1 10)) = Some (Rad1 10)"
    by (simp add: zero_border_def)
  note t1 = zero_width_border_skipped [of "zero_border (Rad1 10)" 100 50 failing_host ex_box]
  note t2 = zero_width_border_skipped [of "zero_border (Rad4 0 0 0 0)" 100 50 failing_host ex_box]
  have d: "drawBorder 100 50 (Some (zero_border (Rad1 10))) = []"
    using t1 z by blast
  have e1: "TextGraphics failing_host (ex_box\<lparr>tg_borderStyle := Some (zero_border (Rad1 10))\<rparr>)
       = TextGraphics failing_host (ex_box\<lparr>tg_borderStyle :=
           Some (no_BorderStyle\<lparr>bs_radius := Some (Rad1 10)\<rparr>)\<rparr>)"
    using t1 z unfolding b by blast
  have e2: "TextGraphics failing_host (ex_box\<lparr>tg_borderStyle := Some (zero_border (Rad4 0 0 0 0))\<rparr>)
       = TextGraphics failing_host (ex_box\<lparr>tg_borderStyle := None\<rparr>)"
    using t2 z q by blast
  from z d e1 q e2 show ?thesis by blast
qed

section \<open>Facts about the caller's content\<close>

text \<open>
  C9. The claim is that a render leaves the caller's content array unchanged, in both
  presets. Evaluated for the minimal preset on the lines "a", "bbb" with automatic
  width: the call leaves the caller's array as "bbb", "a" (sorted in place by length),
  and paints the lines in that order.
\<close>

theorem rectangle_sorts_content_in_place:
  "rc_content ex_rect_lines = Some (Lines [ascii ''a'', ascii ''bbb''])
   \<and> map_sum id snd (rectangle ex_rect_lines) = Inr (Some (Lines [ascii ''bbb'', ascii ''a'']))
   \<and> map_sum id (filter is_paint_call \<circ> cv_ops \<circ> fst) (rectangle ex_rect_lines)
       = Inr [FillRect 0 0 36 24,
              Stroke (drawBorder_path 36 24 (Rad1 0)),
              FillText (ascii ''bbb'') 0 12, FillText (ascii ''a'') 0 24]"
proof -
  have m: "rect_measure ex_rect_lines = Inr (36, 24, Some (Lines [ascii ''bbb'', ascii ''a'']))"
    by (simp add: rect_measure_def ex_rect_lines_def no_rect_options_def no_RectFontStyle_def
        no_BorderStyle_def dflt_def Let_def padding_sides_def add_border_def truthy_num_def
        truthy_content_def rect_auto_width_def sort_by_length_desc_def rect_rows_def
        matches_def first_digits_def is_digit_def digits_value_def ascii_def
        rect_get_string_width_def charCodeAt0_def is_high_surrogate_def)
  show ?thesis
    by (simp add: rectangle_def m)
      (simp add: ex_rect_lines_def no_rect_options_def no_RectFontStyle_def
        no_BorderStyle_def dflt_def Let_def padding_sides_def add_border_def truthy_num_def
        truthy_content_def rect_drawCtx_def rect_drawBorder_def rect_drawText_def
        matches_def first_digits_def is_digit_def digits_value_def ascii_def)
qed

end
